theory Spec2Isabelle
  imports Main
begin

section \<open>JavaScript strings\<close>

text \<open>
  A JavaScript string is modelled as a \<open>string\<close> (a list of characters). The source only
  compares strings, concatenates them, tests prefixes and suffixes, searches for the ASCII
  keywords of \<open>closeKeywords\<close> and lowercases. \<open>toLowerCase\<close> maps the ASCII capitals
  to their small letters and leaves every other character alone; a character outside ASCII
  never becomes a letter of a keyword that can take part in a match, so the search for the
  keywords is not affected.
\<close>

definition lower_char :: "char \<Rightarrow> char" where
  "lower_char c =
     (case map_of (zip ''ABCDEFGHIJKLMNOPQRSTUVWXYZ'' ''abcdefghijklmnopqrstuvwxyz'') c of
        Some l \<Rightarrow> l
      | None \<Rightarrow> c)"

definition toLowerCase :: "string \<Rightarrow> string" where
  "toLowerCase s = map lower_char s"

text \<open>\<open>s.startsWith(p)\<close>, \<open>s.endsWith(p)\<close> and \<open>s.includes(k)\<close>.\<close>

definition startsWith :: "string \<Rightarrow> string \<Rightarrow> bool" where
  "startsWith s p = (take (length p) s = p)"


fun includes_str :: "string \<Rightarrow> string \<Rightarrow> bool" where
  "includes_str [] k = (k = [])"
| "includes_str (c # s) k = (startsWith (c # s) k \<or> includes_str s k)"

text \<open>
  \<open>path.join(dir, name)\<close> for a directory \<open>dir\<close> that is already normalised: the result is
  determined by the normal form of \<open>name\<close> taken as a path relative to \<open>dir\<close>. The path is
  split at \<open>/\<close>; empty segments and \<open>.\<close> are dropped; \<open>..\<close> removes the segment before it,
  and stays when there is none (the path then leaves \<open>dir\<close>). \<open>relative_path\<close> is that
  normal form, and a plain name is one that names an entry of \<open>dir\<close> itself.
\<close>

fun split_path :: "string \<Rightarrow> string list" where
  "split_path [] = [[]]"
| "split_path (c # s) =
     (if c = CHR ''/'' then [] # split_path s
      else (case split_path s of
              seg # segs \<Rightarrow> (c # seg) # segs
            | [] \<Rightarrow> [[c]]))"

fun normalize_segs :: "string list \<Rightarrow> string list \<Rightarrow> string list" where
  "normalize_segs up [] = rev up"
| "normalize_segs up (seg # segs) =
     (if seg = [] \<or> seg = ''.'' then normalize_segs up segs
      else if seg = ''..'' then
        (case up of
           [] \<Rightarrow> normalize_segs [seg] segs
         | prev # rest \<Rightarrow>
             if prev = ''..'' then normalize_segs (seg # up) segs else normalize_segs rest segs)
      else normalize_segs (seg # up) segs)"

fun join_path :: "string list \<Rightarrow> string" where
  "join_path [] = []"
| "join_path [seg] = seg"
| "join_path (seg # segs) = seg @ ''/'' @ join_path segs"

definition relative_path :: "string \<Rightarrow> string" where
  "relative_path path = join_path (normalize_segs [] (split_path path))"

definition plain_name :: "string \<Rightarrow> bool" where
  "plain_name n = (n \<noteq> [] \<and> n \<noteq> ''.'' \<and> n \<noteq> ''..'' \<and> CHR ''/'' \<notin> set n)"

text \<open>A value is falsy in a condition when it is \<open>undefined\<close> or the empty string.\<close>

definition falsy :: "string option \<Rightarrow> bool" where
  "falsy v = (case v of None \<Rightarrow> True | Some s \<Rightarrow> s = [])"


section \<open>The issue tracker\<close>

text \<open>
  The tracker is the remote server behind \<open>JiraAPI.makeRequest\<close>. An issue holds its
  comments in listing order, the transitions the tracker offers for it, and the ids of the
  transitions applied so far.
\<close>

record comment =
  comment_id :: nat
  body :: string

record transition =
  transition_id :: string
  name :: string

record issue =
  comments :: "comment list"
  transitions :: "transition list"
  applied :: "string list"

text \<open>
  The world a verification request runs in: the tracker's issues by key, and the invocations
  of \<open>verify\<close> (script id, issue key) made so far. What the handler of a verification
  request writes with \<open>console.error\<close> is diagnostic output and is left out.
\<close>

record world =
  issues :: "string \<rightharpoonup> issue"
  executed :: "(string \<times> string) list"

text \<open>
  Every request to the tracker may fail in transit or be rejected; \<open>makeRequest\<close> then
  throws an \<open>Error\<close> with a message. A run is given, for each endpoint, the message of the
  error the endpoint throws during this run, or \<open>None\<close> when the endpoint answers; a
  handler calls each endpoint at most once. \<open>makeRequest\<close> is the part all the methods of
  \<open>JiraAPI\<close> share: the request is sent, a failure is thrown as an \<open>Error\<close> with its
  message (\<open>Inl\<close>), and otherwise the tracker looks up the issue the endpoint names.
\<close>

datatype api = GetIssue | GetTransitions | PostTransition | PostComment | PutComment | GetComments

type_synonym faults = "api \<Rightarrow> string option"

definition no_faults :: faults where
  "no_faults = (\<lambda>a. None)"

definition makeRequest :: "faults \<Rightarrow> world \<Rightarrow> api \<Rightarrow> string \<Rightarrow> string + issue" where
  "makeRequest f w a issueKey =
     (case f a of
        Some m \<Rightarrow> Inl m
      | None \<Rightarrow>
         (case issues w issueKey of
            None \<Rightarrow> Inl ''Issue Does Not Exist''
          | Some i \<Rightarrow> Inr i))"

text \<open>
  Modelled from the spec: the tracker's side of the Issue Tracker Client contract
  (\<open>addComment\<close>, \<open>updateComment\<close>, \<open>applyTransition\<close>); the server is not part of the
  repository. A new comment gets an id no comment of the issue has and is listed last; an
  update replaces the body of the comment with the given id; a transition is applied when
  the tracker offers it for the issue, and its comment, when present, is added.
\<close>

definition fresh_id :: "comment list \<Rightarrow> nat" where
  "fresh_id cs = Suc (foldr max (map comment_id cs) 0)"

definition srv_add_comment :: "issue \<Rightarrow> string \<Rightarrow> issue" where
  "srv_add_comment i b =
     i\<lparr>comments := comments i @ [\<lparr>comment_id = fresh_id (comments i), body = b\<rparr>]\<rparr>"

definition srv_update_comment :: "issue \<Rightarrow> nat \<Rightarrow> string \<Rightarrow> issue option" where
  "srv_update_comment i cid b =
     (if cid \<in> set (map comment_id (comments i))
      then Some (i\<lparr>comments := map (\<lambda>c. if comment_id c = cid then c\<lparr>body := b\<rparr> else c) (comments i)\<rparr>)
      else None)"

record transitionData =
  td_transition :: string
  td_update :: "string option"

definition srv_transition :: "issue \<Rightarrow> transitionData \<Rightarrow> issue option" where
  "srv_transition i td =
     (if td_transition td \<in> set (map transition_id (transitions i))
      then Some (let i' = i\<lparr>applied := applied i @ [td_transition td]\<rparr>
                 in (case td_update td of None \<Rightarrow> i' | Some b \<Rightarrow> srv_add_comment i' b))
      else None)"

section \<open>JiraAPI\<close>

definition getIssue :: "faults \<Rightarrow> world \<Rightarrow> string \<Rightarrow> string + issue" where
  "getIssue f w issueKey = makeRequest f w GetIssue issueKey"

definition addComment :: "faults \<Rightarrow> world \<Rightarrow> string \<Rightarrow> string \<Rightarrow> string + world" where
  "addComment f w issueKey c =
     (case makeRequest f w PostComment issueKey of
        Inl m \<Rightarrow> Inl m
      | Inr i \<Rightarrow> Inr (w\<lparr>issues := (issues w)(issueKey \<mapsto> srv_add_comment i c)\<rparr>))"

definition updateComment :: "faults \<Rightarrow> world \<Rightarrow> string \<Rightarrow> nat \<Rightarrow> string \<Rightarrow> string + world" where
  "updateComment f w issueKey commentId c =
     (case makeRequest f w PutComment issueKey of
        Inl m \<Rightarrow> Inl m
      | Inr i \<Rightarrow>
         (case srv_update_comment i commentId c of
            None \<Rightarrow> Inl ''Comment Does Not Exist''
          | Some i' \<Rightarrow> Inr (w\<lparr>issues := (issues w)(issueKey \<mapsto> i')\<rparr>)))"

definition getComments :: "faults \<Rightarrow> world \<Rightarrow> string \<Rightarrow> string + comment list" where
  "getComments f w issueKey =
     (case makeRequest f w GetComments issueKey of
        Inl m \<Rightarrow> Inl m
      | Inr i \<Rightarrow> Inr (comments i))"

definition getTransitions :: "faults \<Rightarrow> world \<Rightarrow> string \<Rightarrow> string + transition list" where
  "getTransitions f w issueKey =
     (case makeRequest f w GetTransitions issueKey of
        Inl m \<Rightarrow> Inl m
      | Inr i \<Rightarrow> Inr (transitions i))"

text \<open>
  \<open>transitionIssue(issueKey, transitionId, comment = null)\<close>: the comment is put into the
  request when it is truthy, that is neither \<open>null\<close> nor empty.
\<close>

definition transitionIssue ::
  "faults \<Rightarrow> world \<Rightarrow> string \<Rightarrow> string \<Rightarrow> string option \<Rightarrow> string + world" where
  "transitionIssue f w issueKey transitionId c =
     (let transitionData =
            \<lparr>td_transition = transitionId,
             td_update = (if falsy c then None else c)\<rparr>
      in (case makeRequest f w PostTransition issueKey of
            Inl m \<Rightarrow> Inl m
          | Inr i \<Rightarrow>
             (case srv_transition i transitionData of
                None \<Rightarrow> Inl ''Transition is not valid for this issue''
              | Some i' \<Rightarrow> Inr (w\<lparr>issues := (issues w)(issueKey \<mapsto> i')\<rparr>))))"

definition closeKeywords :: "string list" where
  "closeKeywords = [''close'', ''resolve'', ''done'', ''complete'', ''finish'']"

fun findCloseTransition_loop :: "transition list \<Rightarrow> transition option" where
  "findCloseTransition_loop [] = None"
| "findCloseTransition_loop (t # ts) =
     (let n = toLowerCase (name t)
      in if list_ex (\<lambda>keyword. includes_str n keyword) closeKeywords then Some t
         else findCloseTransition_loop ts)"

definition findCloseTransition :: "faults \<Rightarrow> world \<Rightarrow> string \<Rightarrow> string + transition option" where
  "findCloseTransition f w issueKey =
     (case getTransitions f w issueKey of
        Inl m \<Rightarrow> Inl m
      | Inr ts \<Rightarrow> Inr (findCloseTransition_loop ts))"


section \<open>Verification scripts\<close>

text \<open>
  A verification script is a module in the scripts directory. Requiring it either throws
  (\<open>LoadError\<close> with the message) or yields the module's exports. \<open>verify\<close> is present
  when the module exports a function under that name. By the contract of a script, awaiting
  \<open>verify\<close> returns a string; or it throws: an \<open>Error\<close> carrying a message, or \<open>null\<close> or
  \<open>undefined\<close>, which have no \<open>message\<close> property to read (\<open>Nullish\<close>), so that reading
  it in the \<open>catch\<close> block raises a \<open>TypeError\<close>. (A thrown value of another kind, a
  string say, runs through the handler like an \<open>Error\<close> whose message reads \<open>undefined\<close>.)
  The parameters of a request and the parameter descriptions of a script are passed through
  unread; they are lists of name and value pairs.
\<close>

type_synonym params = "(string \<times> string) list"

datatype thrown = Error string | Nullish

datatype verify_result = Returns string | Throws thrown

record script_module =
  script_name :: "string option"
  script_description :: "string option"
  script_parameters :: "params list option"
  verify :: "(string \<Rightarrow> params \<Rightarrow> verify_result) option"

datatype load_result = LoadError string | Loaded script_module

text \<open>
  The files of the host as the handlers reach them: each file is given by its normalised
  path relative to the scripts directory (\<open>sample-test.js\<close> for a file of the directory,
  \<open>../utils/config.js\<close> for a file beside it), with what requiring it gives. The files with
  a plain name are the entries of the directory, in the order \<open>readdir\<close> lists them; \<open>NoDir\<close>
  is a host on which \<open>readdir\<close> of the directory throws.
  \<open>lookup_file\<close> is \<open>fs.access(path.join(dir, name))\<close> followed by \<open>require\<close>: the name
  is normalised before it is looked up, so that \<open>./sample-test.js\<close> is the entry
  \<open>sample-test.js\<close> and \<open>../utils/config.js\<close> is a file outside the directory.
\<close>

datatype scripts_fs =
  NoDir "(string \<times> load_result) list"
| Dir "(string \<times> load_result) list"

definition files_of :: "scripts_fs \<Rightarrow> (string \<times> load_result) list" where
  "files_of fs = (case fs of NoDir files \<Rightarrow> files | Dir files \<Rightarrow> files)"

definition lookup_file :: "scripts_fs \<Rightarrow> string \<Rightarrow> load_result option" where
  "lookup_file fs path = map_of (files_of fs) (relative_path path)"


text \<open>
  The message of the \<open>TypeError\<close> raised by reading \<open>message\<close> of \<open>null\<close> or
  \<open>undefined\<close>; its wording belongs to the runtime, and its first words stand for it.
\<close>

definition typeError_message :: string where
  "typeError_message = ''Cannot read properties of undefined''"

section \<open>Responses\<close>

record script_info =
  info_id :: string
  info_name :: string
  info_description :: string
  info_parameters :: "params list"

record result =
  success :: bool
  action :: "string option"
  message :: string
  verificationResult :: string
  used_transition :: "string option"

datatype json = ErrorBody string | ResultBody result | ScriptsBody "script_info list"

datatype response = Response nat json

section \<open>GET /scripts\<close>






section \<open>POST /run\<close>

record request =
  issueKey :: "string option"
  scriptId :: "string option"
  parameters :: "params option"
  commentPrefix :: "string option"

text \<open>
  Loading and running the script (the \<open>try\<close> around \<open>require\<close> and \<open>verify\<close>): the result is
  the string assigned to \<open>verificationResult\<close>, or \<open>Inl\<close> the message of an exception that
  leaves the \<open>catch\<close> block.
\<close>

definition run_script ::
  "load_result \<Rightarrow> world \<Rightarrow> string \<Rightarrow> string \<Rightarrow> params \<Rightarrow> (string + string) \<times> world" where
  "run_script l w sid key ps =
     (case l of
        LoadError m \<Rightarrow> (Inr (''Script error: '' @ m), w)
      | Loaded script \<Rightarrow>
          (case verify script of
             None \<Rightarrow> (Inr (''Script error: '' @ ''Script does not export a verify function''), w)
           | Some v \<Rightarrow>
               (let w1 = w\<lparr>executed := executed w @ [(sid, key)]\<rparr>
                in (case v key ps of
                      Returns r \<Rightarrow> (Inr r, w1)
                    | Throws (Error m) \<Rightarrow> (Inr (''Script error: '' @ m), w1)
                    | Throws Nullish \<Rightarrow> (Inl typeError_message, w1)))))"

definition isSuccess :: "string \<Rightarrow> bool" where
  "isSuccess r = (r = ''ok'' \<or> r = ''OK'')"

text \<open>The \<open>try\<close> block of the success branch: \<open>Inl\<close> is the error it throws.\<close>

definition close_issue ::
  "faults \<Rightarrow> world \<Rightarrow> string \<Rightarrow> string \<Rightarrow> string \<Rightarrow> string + (result \<times> world)" where
  "close_issue f w key prefix r =
     (case findCloseTransition f w key of
        Inl m \<Rightarrow> Inl m
      | Inr (Some closeTransition) \<Rightarrow>
          (case transitionIssue f w key (transition_id closeTransition)
                  (Some (prefix @ '' Verification passed. Issue auto-closed.'')) of
             Inl m \<Rightarrow> Inl m
           | Inr w' \<Rightarrow>
               Inr (\<lparr>success = True, action = Some ''closed'',
                     message = ''Verification passed. Issue has been closed.'',
                     verificationResult = r,
                     used_transition = Some (name closeTransition)\<rparr>, w'))
      | Inr None \<Rightarrow>
          (case addComment f w key
                  (prefix @ '' Verification passed, but no close transition available.'') of
             Inl m \<Rightarrow> Inl m
           | Inr w' \<Rightarrow>
               Inr (\<lparr>success = True, action = Some ''commented'',
                     message = ''Verification passed, but issue could not be auto-closed. Comment added.'',
                     verificationResult = r,
                     used_transition = None\<rparr>, w')))"

text \<open>The \<open>try\<close> block of the failure branch.\<close>

definition comment_failure ::
  "faults \<Rightarrow> world \<Rightarrow> string \<Rightarrow> string \<Rightarrow> string \<Rightarrow> string + (result \<times> world)" where
  "comment_failure f w key prefix r =
     (case getComments f w key of
        Inl m \<Rightarrow> Inl m
      | Inr cs \<Rightarrow>
          (let existingComment = find (\<lambda>c. startsWith (body c) prefix) cs;
               commentText = prefix @ '' '' @ r;
               res = \<lparr>success = True, action = Some ''commented'',
                      message = ''Verification failed. Comment added to issue.'',
                      verificationResult = r,
                      used_transition = None\<rparr>
           in (case existingComment of
                 Some c \<Rightarrow>
                   (case updateComment f w key (comment_id c) commentText of
                      Inl m \<Rightarrow> Inl m
                    | Inr w' \<Rightarrow> Inr (res, w'))
               | None \<Rightarrow>
                   (case addComment f w key commentText of
                      Inl m \<Rightarrow> Inl m
                    | Inr w' \<Rightarrow> Inr (res, w')))))"

definition process_result ::
  "faults \<Rightarrow> world \<Rightarrow> string \<Rightarrow> string \<Rightarrow> string \<Rightarrow> response \<times> world" where
  "process_result f w key prefix r =
     (if isSuccess r then
        (case close_issue f w key prefix r of
           Inr (res, w') \<Rightarrow> (Response 200 (ResultBody res), w')
         | Inl m \<Rightarrow>
             (Response 200 (ResultBody
                \<lparr>success = True, action = Some ''verified'',
                 message = ''Verification passed, but failed to update issue: '' @ m,
                 verificationResult = r,
                 used_transition = None\<rparr>),
              w))
      else
        (case comment_failure f w key prefix r of
           Inr (res, w') \<Rightarrow> (Response 200 (ResultBody res), w')
         | Inl m \<Rightarrow>
             (Response 200 (ResultBody
                \<lparr>success = False, action = None,
                 message = ''Verification failed and could not update issue: '' @ m,
                 verificationResult = r,
                 used_transition = None\<rparr>),
              w)))"

text \<open>
  The defaults of the destructured request body: \<open>parameters = {}\<close> and
  \<open>commentPrefix = '[Verification]'\<close> apply when the field is absent.
\<close>

definition parameters_of :: "request \<Rightarrow> params" where
  "parameters_of req = (case parameters req of None \<Rightarrow> [] | Some p \<Rightarrow> p)"

definition commentPrefix_of :: "request \<Rightarrow> string" where
  "commentPrefix_of req = (case commentPrefix req of None \<Rightarrow> ''[Verification]'' | Some p \<Rightarrow> p)"

definition run_handler :: "faults \<Rightarrow> scripts_fs \<Rightarrow> world \<Rightarrow> request \<Rightarrow> response \<times> world" where
  "run_handler f fs w req =
     (let ps = parameters_of req;
          prefix = commentPrefix_of req
      in if falsy (issueKey req) \<or> falsy (scriptId req)
         then (Response 400 (ErrorBody ''Issue key and script ID are required''), w)
         else
           (let key = the (issueKey req); sid = the (scriptId req)
            in (case getIssue f w key of
                  Inl m \<Rightarrow> (Response 404 (ErrorBody (''Issue not found: '' @ m)), w)
                | Inr _ \<Rightarrow>
                    (case lookup_file fs (sid @ ''.js'') of
                       None \<Rightarrow> (Response 404 (ErrorBody ''Verification script not found''), w)
                     | Some l \<Rightarrow>
                         (case run_script l w sid key ps of
                            (Inl m, w1) \<Rightarrow>
                              (Response 500 (ErrorBody (''Failed to run verification: '' @ m)), w1)
                          | (Inr r, w1) \<Rightarrow> process_result f w1 key prefix r)))))"

text \<open>Successive requests, each with the faults and the scripts directory of its run.\<close>

fun run_all ::
  "world \<Rightarrow> (faults \<times> scripts_fs \<times> request) list \<Rightarrow> response list \<times> world" where
  "run_all w [] = ([], w)"
| "run_all w ((f, fs, req) # rest) =
     (let (resp, w1) = run_handler f fs w req;
          (resps, w2) = run_all w1 rest
      in (resp # resps, w2))"


section \<open>Reading a response\<close>

text \<open>
  The vocabulary of the specification, read off the JSON result the handler sends: the
  resolution is told by \<open>action\<close>, \<open>success\<close> and \<open>message\<close>, and the outcome is a pass for
  the three resolutions of the success branch and a failure for the two of the failure
  branch, with \<open>verificationResult\<close> as evidence or reason.
\<close>

datatype outcome = Pass string | Fail string

datatype resolution =
  Closed | CommentedPassNoTransition | CommentedFail | VerifiedNoUpdate | UpdateFailed

definition resolution_of :: "result \<Rightarrow> resolution option" where
  "resolution_of res =
     (if success res \<and> action res = Some ''closed'' then Some Closed
      else if success res \<and> action res = Some ''verified'' then Some VerifiedNoUpdate
      else if success res \<and> action res = Some ''commented'' \<and>
              message res = ''Verification passed, but issue could not be auto-closed. Comment added.''
        then Some CommentedPassNoTransition
      else if success res \<and> action res = Some ''commented'' \<and>
              message res = ''Verification failed. Comment added to issue.''
        then Some CommentedFail
      else if \<not> success res \<and> action res = None then Some UpdateFailed
      else None)"

definition outcome_of :: "result \<Rightarrow> outcome option" where
  "outcome_of res =
     (case resolution_of res of
        None \<Rightarrow> None
      | Some Closed \<Rightarrow> Some (Pass (verificationResult res))
      | Some CommentedPassNoTransition \<Rightarrow> Some (Pass (verificationResult res))
      | Some VerifiedNoUpdate \<Rightarrow> Some (Pass (verificationResult res))
      | Some CommentedFail \<Rightarrow> Some (Fail (verificationResult res))
      | Some UpdateFailed \<Rightarrow> Some (Fail (verificationResult res)))"

definition response_resolution :: "response \<Rightarrow> resolution option" where
  "response_resolution resp =
     (case resp of
        Response st (ResultBody res) \<Rightarrow> if st = 200 then resolution_of res else None
      | _ \<Rightarrow> None)"

definition response_outcome :: "response \<Rightarrow> outcome option" where
  "response_outcome resp =
     (case resp of
        Response st (ResultBody res) \<Rightarrow> if st = 200 then outcome_of res else None
      | _ \<Rightarrow> None)"

definition response_message :: "response \<Rightarrow> string" where
  "response_message resp =
     (case resp of
        Response st (ResultBody res) \<Rightarrow> message res
      | Response st (ErrorBody m) \<Rightarrow> m
      | _ \<Rightarrow> [])"

text \<open>The comments of an issue whose body starts with the tag.\<close>

definition tagged :: "string \<Rightarrow> comment list \<Rightarrow> comment list" where
  "tagged tag cs = filter (\<lambda>c. startsWith (body c) tag) cs"

definition response_result :: "response \<Rightarrow> string" where
  "response_result resp =
     (case resp of
        Response st (ResultBody res) \<Rightarrow> verificationResult res
      | _ \<Rightarrow> [])"

text \<open>The comments the tracker holds for an issue key (none when there is no such issue).\<close>

definition comments_of :: "world \<Rightarrow> string \<Rightarrow> comment list" where
  "comments_of w key = (case issues w key of None \<Rightarrow> [] | Some i \<Rightarrow> comments i)"

text \<open>
  The requests the resolution of a result sends to the tracker, in the order of the
  specification's state machine: on a pass the transitions are listed, then the close
  transition is applied or, when there is none, a comment is added; on a failure the
  comments are listed, then the tagged comment is updated or, when there is none, a comment
  is added. \<open>first_fault\<close> is the error of the first of these requests that fails.
\<close>

definition resolution_calls :: "issue \<Rightarrow> string \<Rightarrow> string \<Rightarrow> api list" where
  "resolution_calls i tag r =
     (if r = ''ok'' \<or> r = ''OK'' then
        [GetTransitions,
         (case findCloseTransition_loop (transitions i) of
            Some t \<Rightarrow> PostTransition
          | None \<Rightarrow> PostComment)]
      else
        [GetComments,
         (case tagged tag (comments i) of
            c # cs \<Rightarrow> PutComment
          | [] \<Rightarrow> PostComment)])"

fun first_fault :: "faults \<Rightarrow> api list \<Rightarrow> string option" where
  "first_fault f [] = None"
| "first_fault f (a # as) = (case f a of Some m \<Rightarrow> Some m | None \<Rightarrow> first_fault f as)"

text \<open>
  Whether the lowercased name of a transition contains a keyword, stated without the
  search: the name splits around the keyword.
\<close>

definition close_capable :: "transition \<Rightarrow> bool" where
  "close_capable t =
     (\<exists>k \<in> {''close'', ''resolve'', ''done'', ''complete'', ''finish''}.
        \<exists>pre post. toLowerCase (name t) = pre @ k @ post)"



section \<open>Settings\<close>

text \<open>
  \<open>encrypt\<close> and \<open>decrypt\<close> call the AES implementation of a library with a fixed key. The
  cipher is a parameter here: \<open>enc\<close> takes the random salt of the call and the text, and
  \<open>dec\<close> takes the stored text; either gives \<open>None\<close> when the library throws. The settings
  file holds the saved object, or is absent or unreadable; writing it may fail.
\<close>

record settings =
  jiraUrl :: string
  username :: string
  apiToken :: string
  configured :: bool

datatype settings_file = Absent | Unreadable | Content settings

type_synonym 'salt encrypt = "'salt \<Rightarrow> string \<Rightarrow> string option"
type_synonym decrypt = "string \<Rightarrow> string option"

definition default_settings :: settings where
  "default_settings = \<lparr>jiraUrl = [], username = [], apiToken = [], configured = False\<rparr>"

definition getSettings :: "decrypt \<Rightarrow> settings_file \<Rightarrow> settings" where
  "getSettings dec file =
     (case file of
        Content s \<Rightarrow>
          (if apiToken s \<noteq> [] then
             (case dec (apiToken s) of
                Some t \<Rightarrow> s\<lparr>apiToken := t\<rparr>
              | None \<Rightarrow> default_settings)
           else s)
      | _ \<Rightarrow> default_settings)"

definition saveSettings ::
  "'salt encrypt \<Rightarrow> 'salt \<Rightarrow> bool \<Rightarrow> settings \<Rightarrow> settings_file \<Rightarrow> bool \<times> settings_file" where
  "saveSettings enc salt writable s file =
     (if apiToken s \<noteq> [] then
        (case enc salt (apiToken s) of
           None \<Rightarrow> (False, file)
         | Some e \<Rightarrow>
             (if writable then (True, Content (s\<lparr>apiToken := e\<rparr>)) else (False, file)))
      else (if writable then (True, Content s) else (False, file)))"

text \<open>
  What the cipher is relied on for: decrypting an encrypted text gives the text back, and
  the encrypted text is longer than the text (it carries a salt header and padding).
\<close>

definition cipher_ok :: "'salt encrypt \<Rightarrow> decrypt \<Rightarrow> bool" where
  "cipher_ok enc dec =
     (\<forall>salt t e. enc salt t = Some e \<longrightarrow> dec e = Some t \<and> length t < length e)"

section \<open>Example data\<close>

definition ex_issue :: issue where
  "ex_issue =
     \<lparr>comments = [\<lparr>comment_id = 7, body = ''Seen on staging''\<rparr>],
      transitions = [\<lparr>transition_id = ''11'', name = ''Start Progress''\<rparr>,
                     \<lparr>transition_id = ''31'', name = ''Close Issue''\<rparr>,
                     \<lparr>transition_id = ''41'', name = ''Mark as Done''\<rparr>],
      applied = []\<rparr>"

definition ex_issue_open :: issue where
  "ex_issue_open =
     \<lparr>comments = [],
      transitions = [\<lparr>transition_id = ''11'', name = ''Start Progress''\<rparr>,
                     \<lparr>transition_id = ''21'', name = ''Reopen''\<rparr>],
      applied = []\<rparr>"

definition ex_world :: world where
  "ex_world =
     \<lparr>issues = [''PROJ-1'' \<mapsto> ex_issue, ''PROJ-2'' \<mapsto> ex_issue_open], executed = []\<rparr>"

definition ex_script :: "verify_result \<Rightarrow> script_module" where
  "ex_script vr =
     \<lparr>script_name = Some ''Sample Test'', script_description = None,
      script_parameters = Some [[(''name'', ''successRate''), (''type'', ''number'')]],
      verify = Some (\<lambda>key ps. vr)\<rparr>"

definition ex_no_verify :: script_module where
  "ex_no_verify =
     \<lparr>script_name = None, script_description = Some ''Not a check'',
      script_parameters = None, verify = None\<rparr>"

definition ex_config :: script_module where
  "ex_config =
     \<lparr>script_name = None, script_description = None, script_parameters = None, verify = None\<rparr>"

definition ex_files :: "verify_result \<Rightarrow> (string \<times> load_result) list" where
  "ex_files vr =
     [(''sample-test.js'', Loaded (ex_script vr)),
      (''broken.js'', LoadError ''Unexpected token''),
      (''notes.txt'', LoadError ''Unexpected identifier''),
      (''no-verify.js'', Loaded ex_no_verify),
      (''../utils/config.js'', Loaded ex_config)]"


definition ex_request :: "string \<Rightarrow> string \<Rightarrow> request" where
  "ex_request key sid =
     \<lparr>issueKey = Some key, scriptId = Some sid, parameters = None, commentPrefix = None\<rparr>"

definition fail_on :: "api \<Rightarrow> string \<Rightarrow> faults" where
  "fail_on a m = (\<lambda>x. if x = a then Some m else None)"

definition ex_runs :: "(faults \<times> scripts_fs \<times> request) list" where
  "ex_runs =
     [(fail_on PostComment ''Service Unavailable'', Dir (ex_files (Returns ''first try'')),
       ex_request ''PROJ-1'' ''sample-test''),
      (no_faults, Dir (ex_files (Returns ''timeout'')), ex_request ''PROJ-1'' ''sample-test''),
      (fail_on PutComment ''Service Unavailable'', Dir (ex_files (Throws (Error ''boom''))),
       ex_request ''PROJ-1'' ''sample-test''),
      (no_faults, Dir (ex_files (Returns ''still failing'')), ex_request ''PROJ-1'' ''sample-test'')]"

definition ex_enc :: "char encrypt" where
  "ex_enc salt t = Some (salt # rev t)"

definition ex_dec :: decrypt where
  "ex_dec e = (case e of [] \<Rightarrow> None | c # r \<Rightarrow> Some (rev r))"

definition ex_settings :: settings where
  "ex_settings =
     \<lparr>jiraUrl = ''https://tracker.example'', username = ''dev'', apiToken = ''s3cret'',
      configured = True\<rparr>"

section \<open>Reaching the script and resolving its result\<close>

lemma close_issue_cases:
  "close_issue f w key prefix r = Inr (res, w') \<Longrightarrow>
     verificationResult res = r \<and>
     (resolution_of res = Some Closed \<or> resolution_of res = Some CommentedPassNoTransition)"
  by (auto simp: close_issue_def resolution_of_def split: sum.splits option.splits)

lemma comment_failure_cases:
  "comment_failure f w key prefix r = Inr (res, w') \<Longrightarrow>
     verificationResult res = r \<and> resolution_of res = Some CommentedFail"
  by (auto simp: comment_failure_def resolution_of_def Let_def split: sum.splits option.splits)

lemma process_result_pass:
  assumes "isSuccess r"
  shows "response_outcome (fst (process_result f w key prefix r)) = Some (Pass r)"
proof (cases "close_issue f w key prefix r")
  case (Inl m)
  with assms show ?thesis
    by (simp add: process_result_def response_outcome_def outcome_of_def resolution_of_def)
next
  case (Inr p)
  obtain res w' where p: "p = (res, w')" by (cases p)
  from close_issue_cases[OF Inr[unfolded p]] assms Inr p show ?thesis
    by (auto simp add: process_result_def response_outcome_def outcome_of_def)
qed

lemma process_result_fail:
  assumes "\<not> isSuccess r"
  shows "response_outcome (fst (process_result f w key prefix r)) = Some (Fail r)"
    and "response_resolution (fst (process_result f w key prefix r)) = Some CommentedFail \<or>
         response_resolution (fst (process_result f w key prefix r)) = Some UpdateFailed"
proof -
  show "response_outcome (fst (process_result f w key prefix r)) = Some (Fail r)"
  proof (cases "comment_failure f w key prefix r")
    case (Inl m)
    with assms show ?thesis
      by (simp add: process_result_def response_outcome_def outcome_of_def resolution_of_def)
  next
    case (Inr p)
    obtain res w' where p: "p = (res, w')" by (cases p)
    from comment_failure_cases[OF Inr[unfolded p]] assms Inr p show ?thesis
      by (auto simp add: process_result_def response_outcome_def outcome_of_def)
  qed
  show "response_resolution (fst (process_result f w key prefix r)) = Some CommentedFail \<or>
        response_resolution (fst (process_result f w key prefix r)) = Some UpdateFailed"
  proof (cases "comment_failure f w key prefix r")
    case (Inl m)
    with assms show ?thesis
      by (simp add: process_result_def response_resolution_def resolution_of_def)
  next
    case (Inr p)
    obtain res w' where p: "p = (res, w')" by (cases p)
    from comment_failure_cases[OF Inr[unfolded p]] assms Inr p show ?thesis
      by (auto simp add: process_result_def response_resolution_def)
  qed
qed

lemma run_handler_reaches:
  assumes "issueKey req = Some key" "key \<noteq> []" "scriptId req = Some sid" "sid \<noteq> []"
    and "getIssue f w key = Inr i"
    and "lookup_file fs (sid @ ''.js'') = Some l"
    and "run_script l w sid key (parameters_of req) = (Inr r, w1)"
  shows "run_handler f fs w req = process_result f w1 key (commentPrefix_of req) r"
  using assms by (simp add: run_handler_def falsy_def)

lemma run_script_returns:
  assumes "verify script = Some v" "v key ps = Returns r"
  shows "run_script (Loaded script) w sid key ps =
           (Inr r, w\<lparr>executed := executed w @ [(sid, key)]\<rparr>)"
  using assms by (simp add: run_script_def)

lemma script_error_not_success: "\<not> isSuccess (''Script error: '' @ m)"
  by (simp add: isSuccess_def)

section \<open>Classification of the returned string\<close>

text \<open>
  C1. A request that reaches a script whose \<open>verify\<close> returns the string \<open>r\<close> is answered
  with a pass exactly when \<open>r\<close> is \<open>ok\<close> or \<open>OK\<close>; for every other string the outcome is a
  failure whose reason is \<open>r\<close> itself.
\<close>

theorem classification_exact:
  assumes "issueKey req = Some key" "key \<noteq> []" "scriptId req = Some sid" "sid \<noteq> []"
    and "getIssue f w key = Inr i"
    and "lookup_file fs (sid @ ''.js'') = Some (Loaded script)"
    and "verify script = Some v"
    and "v key (parameters_of req) = Returns r"
  shows "response_outcome (fst (run_handler f fs w req)) =
           Some (if r = ''ok'' \<or> r = ''OK'' then Pass r else Fail r)"
proof -
  have "run_handler f fs w req =
          process_result f (w\<lparr>executed := executed w @ [(sid, key)]\<rparr>) key (commentPrefix_of req) r"
    using assms run_script_returns[OF assms(7,8)] by (intro run_handler_reaches) auto
  then show ?thesis
    using process_result_pass[of r] process_result_fail(1)[of r]
    by (auto simp: isSuccess_def)
qed

lemma ex_getIssue: "getIssue no_faults ex_world ''PROJ-1'' = Inr ex_issue"
  by (simp add: getIssue_def makeRequest_def no_faults_def ex_world_def)

lemma ex_lookup:
  "lookup_file (Dir (ex_files vr)) (''sample-test'' @ ''.js'') = Some (Loaded (ex_script vr))"
  by (simp add: lookup_file_def files_of_def relative_path_def ex_files_def)

lemma ex_request_fields:
  "issueKey (ex_request key sid) = Some key"
  "scriptId (ex_request key sid) = Some sid"
  "parameters_of (ex_request key sid) = []"
  "commentPrefix_of (ex_request key sid) = ''[Verification]''"
  by (simp_all add: ex_request_def parameters_of_def commentPrefix_of_def)

lemma ex_script_verify: "verify (ex_script vr) = Some (\<lambda>key ps. vr)"
  by (simp add: ex_script_def)

lemma classification_examples:
  "isSuccess ''ok''" "isSuccess ''OK''"
  "\<not> isSuccess ''Ok''" "\<not> isSuccess ''success''" "\<not> isSuccess ''''" "\<not> isSuccess ''ok ''"
  by (simp_all add: isSuccess_def)

theorem classification_exact_witness:
  "response_outcome (fst (run_handler no_faults (Dir (ex_files (Returns ''ok ''))) ex_world
      (ex_request ''PROJ-1'' ''sample-test''))) = Some (Fail ''ok '')
   \<and> response_outcome (fst (run_handler no_faults (Dir (ex_files (Returns ''OK''))) ex_world
      (ex_request ''PROJ-1'' ''sample-test''))) = Some (Pass ''OK'')"
proof -
  have b: "''PROJ-1'' \<noteq> []" and d: "''sample-test'' \<noteq> []"
    by simp_all
  show ?thesis
    using classification_exact[OF ex_request_fields(1) b ex_request_fields(2) d ex_getIssue
        ex_lookup ex_script_verify, of "Returns ''ok ''" "''ok ''"]
      classification_exact[OF ex_request_fields(1) b ex_request_fields(2) d ex_getIssue
        ex_lookup ex_script_verify, of "Returns ''OK''" "''OK''"]
    by simp
qed

section \<open>Containment of script errors\<close>

lemma run_script_throws:
  assumes "verify script = Some v" "v key ps = Throws (Error m)"
  shows "run_script (Loaded script) w sid key ps =
           (Inr (''Script error: '' @ m), w\<lparr>executed := executed w @ [(sid, key)]\<rparr>)"
  using assms by (simp add: run_script_def)

text \<open>
  A request that reaches a script whose \<open>verify\<close> throws an \<open>Error\<close> with message \<open>m\<close> is
  answered with status 200 and a resolution of the failure branch (the comment was written,
  or the update failed); the outcome is the failure \<open>Script error: m\<close>.
\<close>

lemma script_error_contained:
  assumes "issueKey req = Some key" "key \<noteq> []" "scriptId req = Some sid" "sid \<noteq> []"
    and "getIssue f w key = Inr i"
    and "lookup_file fs (sid @ ''.js'') = Some (Loaded script)"
    and "verify script = Some v"
    and "v key (parameters_of req) = Throws (Error m)"
  shows "response_outcome (fst (run_handler f fs w req)) = Some (Fail (''Script error: '' @ m))
         \<and> (response_resolution (fst (run_handler f fs w req)) = Some CommentedFail \<or>
            response_resolution (fst (run_handler f fs w req)) = Some UpdateFailed)"
proof -
  have "run_handler f fs w req =
          process_result f (w\<lparr>executed := executed w @ [(sid, key)]\<rparr>)
            key (commentPrefix_of req) (''Script error: '' @ m)"
    using assms run_script_throws[OF assms(7,8)] by (intro run_handler_reaches) auto
  then show ?thesis
    using process_result_fail[OF script_error_not_success, of f _ key "commentPrefix_of req" m]
    by simp
qed

lemma script_error_contained_example:
  "response_outcome (fst (run_handler no_faults (Dir (ex_files (Throws (Error ''boom'')))) ex_world
      (ex_request ''PROJ-1'' ''sample-test''))) = Some (Fail ''Script error: boom'')
   \<and> response_resolution (fst (run_handler no_faults (Dir (ex_files (Throws (Error ''boom'')))) ex_world
      (ex_request ''PROJ-1'' ''sample-test''))) = Some CommentedFail"
proof -
  have b: "''PROJ-1'' \<noteq> []" and d: "''sample-test'' \<noteq> []"
    by simp_all
  have "response_resolution (fst (run_handler no_faults (Dir (ex_files (Throws (Error ''boom'')))) ex_world
      (ex_request ''PROJ-1'' ''sample-test''))) \<noteq> Some UpdateFailed"
   by code_simp
  then show ?thesis
    using script_error_contained[OF ex_request_fields(1) b ex_request_fields(2) d ex_getIssue
        ex_lookup ex_script_verify, of "Throws (Error ''boom'')" "''boom''"]
    by simp
qed

text \<open>
  C2. The \<open>catch\<close> around the script is there to turn every error a check raises into the
  failure \<open>Script error: message\<close>, but it reads \<open>error.message\<close>, and that read itself
  throws when the check threw \<open>null\<close> or \<open>undefined\<close> (or rejected its promise without a
  reason). For such a check the second error reaches the outer \<open>catch\<close>: the request is
  answered with status 500 and \<open>Failed to run verification\<close>, there is no outcome and no
  resolution, and the issue is left as it was.
\<close>

theorem nullish_throw_escapes:
  "fst (run_handler no_faults (Dir (ex_files (Throws Nullish))) ex_world
         (ex_request ''PROJ-1'' ''sample-test'')) =
     Response 500 (ErrorBody ''Failed to run verification: Cannot read properties of undefined'')
   \<and> response_outcome (fst (run_handler no_faults (Dir (ex_files (Throws Nullish))) ex_world
         (ex_request ''PROJ-1'' ''sample-test''))) = None
   \<and> response_resolution (fst (run_handler no_faults (Dir (ex_files (Throws Nullish))) ex_world
         (ex_request ''PROJ-1'' ''sample-test''))) = None
   \<and> executed (snd (run_handler no_faults (Dir (ex_files (Throws Nullish))) ex_world
         (ex_request ''PROJ-1'' ''sample-test''))) = [(''sample-test'', ''PROJ-1'')]
   \<and> issues (snd (run_handler no_faults (Dir (ex_files (Throws Nullish))) ex_world
         (ex_request ''PROJ-1'' ''sample-test''))) ''PROJ-1'' = Some ex_issue"
  by code_simp

section \<open>The failure branch\<close>

lemma find_None_tagged: "find (\<lambda>c. startsWith (body c) tag) cs = None \<longleftrightarrow> tagged tag cs = []"
  by (auto simp add: tagged_def find_None_iff filter_empty_conv)

lemma comment_failure_add:
  assumes "issues w key = Some i" "f GetComments = None" "f PostComment = None"
    and "tagged prefix (comments i) = []"
  shows "comment_failure f w key prefix r =
           Inr (\<lparr>success = True, action = Some ''commented'',
                 message = ''Verification failed. Comment added to issue.'',
                 verificationResult = r, used_transition = None\<rparr>,
                w\<lparr>issues := (issues w)(key \<mapsto> srv_add_comment i (prefix @ '' '' @ r))\<rparr>)"
  using assms find_None_tagged[of prefix "comments i"]
  by (simp add: comment_failure_def getComments_def makeRequest_def addComment_def)

lemma comment_failure_update:
  assumes "issues w key = Some i" "f GetComments = None" "f PutComment = None"
    and "find (\<lambda>c. startsWith (body c) prefix) (comments i) = Some c"
  shows "comment_failure f w key prefix r =
           Inr (\<lparr>success = True, action = Some ''commented'',
                 message = ''Verification failed. Comment added to issue.'',
                 verificationResult = r, used_transition = None\<rparr>,
                w\<lparr>issues := (issues w)(key \<mapsto>
                   i\<lparr>comments := map (\<lambda>x. if comment_id x = comment_id c
                                            then x\<lparr>body := prefix @ '' '' @ r\<rparr> else x) (comments i)\<rparr>)\<rparr>)"
proof -
  from assms(4) have "c \<in> set (comments i)"
    by (auto simp: find_Some_iff)
  then have "srv_update_comment i (comment_id c) (prefix @ '' '' @ r) =
     Some (i\<lparr>comments := map (\<lambda>x. if comment_id x = comment_id c
                                            then x\<lparr>body := prefix @ '' '' @ r\<rparr> else x) (comments i)\<rparr>)"
    by (simp add: srv_update_comment_def)
  with assms show ?thesis
    by (simp add: comment_failure_def getComments_def makeRequest_def updateComment_def)
qed

lemma comment_failure_Inr:
  assumes "comment_failure f w key prefix r = Inr (res, w')"
  shows "\<exists>i. issues w key = Some i \<and> f GetComments = None \<and>
           ((tagged prefix (comments i) = [] \<and> f PostComment = None) \<or>
            (\<exists>c. find (\<lambda>c. startsWith (body c) prefix) (comments i) = Some c \<and> f PutComment = None))"
  using assms find_None_tagged[of prefix]
  by (auto simp: comment_failure_def getComments_def makeRequest_def updateComment_def
        addComment_def Let_def split: sum.splits option.splits)

lemma getIssue_Inr: "getIssue f w key = Inr i \<Longrightarrow> issues w key = Some i \<and> f GetIssue = None"
  by (auto simp: getIssue_def makeRequest_def split: option.splits)








lemma fail_calls_eq:
  assumes "\<not> isSuccess r"
  shows "first_fault f (resolution_calls i prefix r) =
           (case f GetComments of
              Some m \<Rightarrow> Some m
            | None \<Rightarrow> if tagged prefix (comments i) = [] then f PostComment else f PutComment)"
  using assms
  by (auto simp: resolution_calls_def isSuccess_def split: option.splits list.splits)

lemma comment_failure_fault:
  assumes "issues w key = Some i" "\<not> isSuccess r"
    and "first_fault f (resolution_calls i prefix r) = Some m"
  shows "comment_failure f w key prefix r = Inl m"
proof (cases "f GetComments")
  case (Some m')
  with assms fail_calls_eq[OF assms(2), of f i prefix] show ?thesis
    by (simp add: comment_failure_def getComments_def makeRequest_def)
next
  case None
  show ?thesis
  proof (cases "find (\<lambda>c. startsWith (body c) prefix) (comments i)")
    case n: None
    then have "tagged prefix (comments i) = []"
      by (simp add: find_None_tagged)
    with None assms(3) fail_calls_eq[OF assms(2), of f i prefix] have "f PostComment = Some m"
      by simp
    with None n assms(1) show ?thesis
      by (simp add: comment_failure_def getComments_def makeRequest_def addComment_def)
  next
    case s: (Some c)
    then have "tagged prefix (comments i) \<noteq> []"
      using find_None_tagged[of prefix "comments i"] by simp
    with None assms(3) fail_calls_eq[OF assms(2), of f i prefix] have "f PutComment = Some m"
      by simp
    with None s assms(1) show ?thesis
      by (simp add: comment_failure_def getComments_def makeRequest_def updateComment_def)
  qed
qed


section \<open>A script without a verify function\<close>




lemma ex_getIssue2: "getIssue no_faults ex_world ''PROJ-2'' = Inr ex_issue_open"
  by (simp add: getIssue_def makeRequest_def no_faults_def ex_world_def)



section \<open>Request errors\<close>

lemma split_path_plain: "CHR ''/'' \<notin> set n \<Longrightarrow> split_path n = [n]"
  by (induction n) auto

lemma relative_path_plain: "plain_name n \<Longrightarrow> relative_path n = n"
  by (simp add: plain_name_def relative_path_def split_path_plain)

lemma lookup_file_entry:
  assumes "plain_name n" "distinct (map fst files)" "(n, l) \<in> set files"
  shows "lookup_file (Dir files) n = Some l"
  using assms by (simp add: lookup_file_def files_of_def relative_path_plain)

lemma ex_lookup_paths:
  "lookup_file (Dir (ex_files vr)) (''./sample-test'' @ ''.js'') = Some (Loaded (ex_script vr))"
  "lookup_file (Dir (ex_files vr)) (''../utils/config'' @ ''.js'') = Some (Loaded ex_config)"
  "lookup_file (Dir (ex_files vr)) (''../utils/missing'' @ ''.js'') = None"
  by (simp_all add: lookup_file_def files_of_def relative_path_def ex_files_def)



section \<open>Listing the scripts\<close>




section \<open>Selecting the close transition\<close>

lemma startsWith_iff: "startsWith s p \<longleftrightarrow> (\<exists>rest. s = p @ rest)"
proof
  assume "startsWith s p"
  then have "s = p @ drop (length p) s"
    by (metis startsWith_def append_take_drop_id)
  then show "\<exists>rest. s = p @ rest" ..
next
  assume "\<exists>rest. s = p @ rest"
  then show "startsWith s p"
    by (auto simp: startsWith_def)
qed

lemma includes_str_iff: "includes_str s k \<longleftrightarrow> (\<exists>pre post. s = pre @ k @ post)"
proof (induction s)
  case Nil
  show ?case by auto
next
  case (Cons c s)
  show ?case
  proof
    assume "includes_str (c # s) k"
    then consider "startsWith (c # s) k" | "includes_str s k" by auto
    then show "\<exists>pre post. c # s = pre @ k @ post"
    proof cases
      case 1
      then obtain rest where "c # s = k @ rest"
        by (auto simp: startsWith_iff)
      then have "c # s = [] @ k @ rest" by simp
      then show ?thesis by blast
    next
      case 2
      with Cons.IH obtain pre post where "s = pre @ k @ post" by auto
      then have "c # s = (c # pre) @ k @ post" by simp
      then show ?thesis by blast
    qed
  next
    assume "\<exists>pre post. c # s = pre @ k @ post"
    then obtain pre post where e: "c # s = pre @ k @ post" by auto
    show "includes_str (c # s) k"
    proof (cases pre)
      case Nil
      with e have "startsWith (c # s) k"
        by (auto simp: startsWith_iff)
      then show ?thesis by simp
    next
      case (Cons a pre')
      with e have "s = pre' @ k @ post" by simp
      with Cons.IH have "includes_str s k" by blast
      then show ?thesis by simp
    qed
  qed
qed

lemma close_capable_search:
  "close_capable t \<longleftrightarrow>
     list_ex (\<lambda>keyword. includes_str (toLowerCase (name t)) keyword) closeKeywords"
  by (simp add: close_capable_def closeKeywords_def includes_str_iff)

lemma findCloseTransition_loop_find: "findCloseTransition_loop ts = find close_capable ts"
  by (induction ts) (simp_all add: close_capable_search Let_def)

text \<open>
  C4. Given the transitions in the order the tracker lists them, \<open>findCloseTransition\<close>
  returns the first one whose lowercased name contains one of the keywords \<open>close\<close>,
  \<open>resolve\<close>, \<open>done\<close>, \<open>complete\<close>, \<open>finish\<close> (every earlier one contains none), and
  returns nothing when no name contains a keyword.
\<close>

theorem close_transition_is_first_match:
  assumes "getTransitions f w key = Inr ts"
  shows "((\<forall>t \<in> set ts. \<not> close_capable t) \<longrightarrow> findCloseTransition f w key = Inr None)
       \<and> (i < length ts \<and> close_capable (ts ! i) \<and> (\<forall>j<i. \<not> close_capable (ts ! j)) \<longrightarrow>
            findCloseTransition f w key = Inr (Some (ts ! i)))"
proof -
  have r: "findCloseTransition f w key = Inr (find close_capable ts)"
    using assms by (simp add: findCloseTransition_def findCloseTransition_loop_find)
  have "find close_capable ts = None" if "\<forall>t \<in> set ts. \<not> close_capable t"
    using that by (simp add: find_None_iff)
  moreover have "find close_capable ts = Some (ts ! i)"
    if "i < length ts \<and> close_capable (ts ! i) \<and> (\<forall>j<i. \<not> close_capable (ts ! j))"
    using that by (auto simp: find_Some_iff)
  ultimately show ?thesis
    using r by simp
qed

lemma ex_getTransitions:
  "getTransitions no_faults ex_world ''PROJ-1'' = Inr (transitions ex_issue)"
  "getTransitions no_faults ex_world ''PROJ-2'' = Inr (transitions ex_issue_open)"
  by (simp_all add: getTransitions_def makeRequest_def no_faults_def ex_world_def)

lemma ex_close_capable:
  "\<not> close_capable \<lparr>transition_id = ''11'', name = ''Start Progress''\<rparr>"
  "close_capable \<lparr>transition_id = ''31'', name = ''Close Issue''\<rparr>"
  "\<not> close_capable \<lparr>transition_id = ''21'', name = ''Reopen''\<rparr>"
  by (simp_all add: close_capable_search closeKeywords_def toLowerCase_def lower_char_def
        startsWith_def)

theorem close_transition_is_first_match_witness:
  "findCloseTransition no_faults ex_world ''PROJ-1'' =
     Inr (Some \<lparr>transition_id = ''31'', name = ''Close Issue''\<rparr>)
   \<and> findCloseTransition no_faults ex_world ''PROJ-2'' = Inr None"
proof -
  have a: "\<forall>j<1. \<not> close_capable (transitions ex_issue ! j)"
    by (simp add: ex_issue_def ex_close_capable)
  have b: "(1::nat) < length (transitions ex_issue)" "close_capable (transitions ex_issue ! 1)"
    by (simp_all add: ex_issue_def ex_close_capable)
  have c: "\<forall>t \<in> set (transitions ex_issue_open). \<not> close_capable t"
    by (simp add: ex_issue_open_def ex_close_capable)
  have d: "transitions ex_issue ! 1 = \<lparr>transition_id = ''31'', name = ''Close Issue''\<rparr>"
    by (simp add: ex_issue_def)
  show ?thesis
    using close_transition_is_first_match[OF ex_getTransitions(1), of 1] a b d
      close_transition_is_first_match[OF ex_getTransitions(2), of 0] c
    by simp
qed

section \<open>The success branch\<close>

lemma find_Some_mem: "find P xs = Some x \<Longrightarrow> x \<in> set xs"
  by (auto simp: find_Some_iff)

lemma close_issue_closed:
  assumes "issues w key = Some i" "f GetTransitions = None" "f PostTransition = None"
    and "find close_capable (transitions i) = Some t"
  shows "close_issue f w key prefix r =
           Inr (\<lparr>success = True, action = Some ''closed'',
                 message = ''Verification passed. Issue has been closed.'',
                 verificationResult = r, used_transition = Some (name t)\<rparr>,
                w\<lparr>issues := (issues w)(key \<mapsto>
                    i\<lparr>applied := applied i @ [transition_id t],
                      comments := comments i @
                        [\<lparr>comment_id = fresh_id (comments i),
                          body = prefix @ '' Verification passed. Issue auto-closed.''\<rparr>]\<rparr>)\<rparr>)"
proof -
  have "transition_id t \<in> set (map transition_id (transitions i))"
    using find_Some_mem[OF assms(4)] by simp
  then have "srv_transition i \<lparr>td_transition = transition_id t,
               td_update = Some (prefix @ '' Verification passed. Issue auto-closed.'')\<rparr> =
             Some (i\<lparr>applied := applied i @ [transition_id t],
                      comments := comments i @
                        [\<lparr>comment_id = fresh_id (comments i),
                          body = prefix @ '' Verification passed. Issue auto-closed.''\<rparr>]\<rparr>)"
    by (simp add: srv_transition_def srv_add_comment_def Let_def)
  then have "transitionIssue f w key (transition_id t)
               (Some (prefix @ '' Verification passed. Issue auto-closed.'')) =
             Inr (w\<lparr>issues := (issues w)(key \<mapsto>
                    i\<lparr>applied := applied i @ [transition_id t],
                      comments := comments i @
                        [\<lparr>comment_id = fresh_id (comments i),
                          body = prefix @ '' Verification passed. Issue auto-closed.''\<rparr>]\<rparr>)\<rparr>)"
    using assms(1,3) by (simp add: transitionIssue_def makeRequest_def falsy_def)
  moreover have "findCloseTransition f w key = Inr (Some t)"
    using assms(1,2,4)
    by (simp add: findCloseTransition_def getTransitions_def makeRequest_def
          findCloseTransition_loop_find)
  ultimately show ?thesis
    by (simp add: close_issue_def)
qed

lemma close_issue_commented:
  assumes "issues w key = Some i" "f GetTransitions = None" "f PostComment = None"
    and "find close_capable (transitions i) = None"
  shows "close_issue f w key prefix r =
           Inr (\<lparr>success = True, action = Some ''commented'',
                 message = ''Verification passed, but issue could not be auto-closed. Comment added.'',
                 verificationResult = r, used_transition = None\<rparr>,
                w\<lparr>issues := (issues w)(key \<mapsto>
                    i\<lparr>comments := comments i @
                        [\<lparr>comment_id = fresh_id (comments i),
                          body = prefix @ '' Verification passed, but no close transition available.''\<rparr>]\<rparr>)\<rparr>)"
proof -
  have "findCloseTransition f w key = Inr None"
    using assms(1,2,4)
    by (simp add: findCloseTransition_def getTransitions_def makeRequest_def
          findCloseTransition_loop_find)
  then show ?thesis
    using assms(1,3)
    by (simp add: close_issue_def addComment_def makeRequest_def srv_add_comment_def)
qed

lemma pass_calls:
  assumes "isSuccess r"
  shows "first_fault f (resolution_calls i prefix r) =
           (case f GetTransitions of
              Some m \<Rightarrow> Some m
            | None \<Rightarrow>
                (case find close_capable (transitions i) of
                   Some t \<Rightarrow> f PostTransition
                 | None \<Rightarrow> f PostComment))"
  using assms
  by (auto simp: resolution_calls_def isSuccess_def findCloseTransition_loop_find
        split: option.splits)

text \<open>
  C6 (amended). For a request that reaches a script whose \<open>verify\<close> returns \<open>ok\<close> or \<open>OK\<close>,
  when the tracker answers the requests of the resolution: if a close-capable transition is
  found, exactly that transition is applied together with one new comment whose body is the
  tag followed by \<open>Verification passed. Issue auto-closed.\<close>, and the result is Closed; if
  none is found, exactly one comment is added, whose body is the tag followed by
  \<open>Verification passed, but no close transition available.\<close>, no transition is applied, and
  the result is CommentedPassNoTransition. No other issue changes.
\<close>

theorem pass_resolution:
  assumes "issueKey req = Some key" "key \<noteq> []" "scriptId req = Some sid" "sid \<noteq> []"
    and "getIssue f w key = Inr i"
    and "lookup_file fs (sid @ ''.js'') = Some (Loaded script)"
    and "verify script = Some v"
    and "v key (parameters_of req) = Returns r"
    and "r = ''ok'' \<or> r = ''OK''"
    and "first_fault f (resolution_calls i (commentPrefix_of req) r) = None"
  shows "(find close_capable (transitions i) = Some t \<longrightarrow>
            response_resolution (fst (run_handler f fs w req)) = Some Closed \<and>
            issues (snd (run_handler f fs w req)) =
              (issues w)(key \<mapsto>
                 i\<lparr>applied := applied i @ [transition_id t],
                   comments := comments i @
                     [\<lparr>comment_id = fresh_id (comments i),
                       body = commentPrefix_of req @ '' Verification passed. Issue auto-closed.''\<rparr>]\<rparr>))
       \<and> (find close_capable (transitions i) = None \<longrightarrow>
            response_resolution (fst (run_handler f fs w req)) = Some CommentedPassNoTransition \<and>
            issues (snd (run_handler f fs w req)) =
              (issues w)(key \<mapsto>
                 i\<lparr>comments := comments i @
                     [\<lparr>comment_id = fresh_id (comments i),
                       body = commentPrefix_of req @
                         '' Verification passed, but no close transition available.''\<rparr>]\<rparr>))"
proof -
  let ?w1 = "w\<lparr>executed := executed w @ [(sid, key)]\<rparr>"
  let ?p = "commentPrefix_of req"
  have s: "isSuccess r"
    using assms(9) by (simp add: isSuccess_def)
  have run: "run_handler f fs w req = process_result f ?w1 key ?p r"
    using assms run_script_returns[OF assms(7,8)] by (intro run_handler_reaches) auto
  have i: "issues ?w1 key = Some i"
    using getIssue_Inr[OF assms(5)] by simp
  have ff: "f GetTransitions = None"
    "find close_capable (transitions i) = Some t \<Longrightarrow> f PostTransition = None"
    "find close_capable (transitions i) = None \<Longrightarrow> f PostComment = None"
    using assms(10) pass_calls[OF s, of f i ?p]
    by (auto split: option.splits)
  show ?thesis
  proof (intro conjI impI)
    assume t: "find close_capable (transitions i) = Some t"
    note c = close_issue_closed[OF i ff(1) ff(2)[OF t] t, of ?p r]
    show "response_resolution (fst (run_handler f fs w req)) = Some Closed"
      unfolding run using s c
      by (simp add: process_result_def response_resolution_def resolution_of_def)
    show "issues (snd (run_handler f fs w req)) =
              (issues w)(key \<mapsto>
                 i\<lparr>applied := applied i @ [transition_id t],
                   comments := comments i @
                     [\<lparr>comment_id = fresh_id (comments i),
                       body = commentPrefix_of req @ '' Verification passed. Issue auto-closed.''\<rparr>]\<rparr>)"
      unfolding run using s c
      by (simp add: process_result_def)
  next
    assume t: "find close_capable (transitions i) = None"
    note c = close_issue_commented[OF i ff(1) ff(3)[OF t] t, of ?p r]
    show "response_resolution (fst (run_handler f fs w req)) = Some CommentedPassNoTransition"
      unfolding run using s c
      by (simp add: process_result_def response_resolution_def resolution_of_def)
    show "issues (snd (run_handler f fs w req)) =
              (issues w)(key \<mapsto>
                 i\<lparr>comments := comments i @
                     [\<lparr>comment_id = fresh_id (comments i),
                       body = commentPrefix_of req @
                         '' Verification passed, but no close transition available.''\<rparr>]\<rparr>)"
      unfolding run using s c
      by (simp add: process_result_def)
  qed
qed

text \<open>
  C6 as stated fails when the tracker rejects the transition: the outcome is a pass, the
  close transition \<open>Close Issue\<close> is found, but the result is VerifiedNoUpdate and the
  issue is unchanged.
\<close>

theorem pass_resolution_counterexample:
  "response_outcome (fst (run_handler (fail_on PostTransition ''Service Unavailable'')
       (Dir (ex_files (Returns ''ok''))) ex_world (ex_request ''PROJ-1'' ''sample-test''))) =
     Some (Pass ''ok'')
   \<and> findCloseTransition (fail_on PostTransition ''Service Unavailable'') ex_world ''PROJ-1'' =
       Inr (Some \<lparr>transition_id = ''31'', name = ''Close Issue''\<rparr>)
   \<and> response_resolution (fst (run_handler (fail_on PostTransition ''Service Unavailable'')
       (Dir (ex_files (Returns ''ok''))) ex_world (ex_request ''PROJ-1'' ''sample-test''))) =
     Some VerifiedNoUpdate
   \<and> issues (snd (run_handler (fail_on PostTransition ''Service Unavailable'')
       (Dir (ex_files (Returns ''ok''))) ex_world (ex_request ''PROJ-1'' ''sample-test'')))
       ''PROJ-1'' = Some ex_issue"
  by code_simp

lemma first_fault_no_faults: "first_fault no_faults as = None"
  by (induction as) (simp_all add: no_faults_def)

lemma ex_find_close:
  "find close_capable (transitions ex_issue) =
     Some \<lparr>transition_id = ''31'', name = ''Close Issue''\<rparr>"
  "find close_capable (transitions ex_issue_open) = None"
  by (simp_all add: ex_issue_def ex_issue_open_def ex_close_capable)

theorem pass_resolution_witness:
  "response_resolution (fst (run_handler no_faults (Dir (ex_files (Returns ''ok''))) ex_world
       (ex_request ''PROJ-1'' ''sample-test''))) = Some Closed
   \<and> issues (snd (run_handler no_faults (Dir (ex_files (Returns ''ok''))) ex_world
       (ex_request ''PROJ-1'' ''sample-test''))) ''PROJ-1'' =
       Some \<lparr>comments = [\<lparr>comment_id = 7, body = ''Seen on staging''\<rparr>,
                          \<lparr>comment_id = 8,
                           body = ''[Verification] Verification passed. Issue auto-closed.''\<rparr>],
             transitions = transitions ex_issue,
             applied = [''31'']\<rparr>
   \<and> response_resolution (fst (run_handler no_faults (Dir (ex_files (Returns ''OK''))) ex_world
       (ex_request ''PROJ-2'' ''sample-test''))) = Some CommentedPassNoTransition
   \<and> issues (snd (run_handler no_faults (Dir (ex_files (Returns ''OK''))) ex_world
       (ex_request ''PROJ-2'' ''sample-test''))) ''PROJ-2'' =
       Some \<lparr>comments = [\<lparr>comment_id = 1,
                           body = ''[Verification] Verification passed, but no close transition available.''\<rparr>],
             transitions = transitions ex_issue_open,
             applied = []\<rparr>"
proof -
  have b: "''PROJ-1'' \<noteq> []" "''PROJ-2'' \<noteq> []" and d: "''sample-test'' \<noteq> []"
    by simp_all
  have r: "''ok'' = ''ok'' \<or> ''ok'' = ''OK''" "''OK'' = ''ok'' \<or> ''OK'' = ''OK''"
    by simp_all
  note one = pass_resolution[OF ex_request_fields(1) b(1) ex_request_fields(2) d ex_getIssue
      ex_lookup ex_script_verify refl r(1) first_fault_no_faults,
      of "\<lparr>transition_id = ''31'', name = ''Close Issue''\<rparr>"]
  note two = pass_resolution[OF ex_request_fields(1) b(2) ex_request_fields(2) d ex_getIssue2
      ex_lookup ex_script_verify refl r(2) first_fault_no_faults]
  show ?thesis
    using one two ex_find_close
    by (simp add: ex_request_fields fresh_id_def ex_issue_def ex_issue_open_def)
qed

section \<open>Failure of the remote update\<close>

lemma run_script_issues: "issues (snd (run_script l w sid key ps)) = issues w"
  by (auto simp: run_script_def Let_def split: load_result.splits option.splits
        verify_result.splits thrown.splits)

lemma close_issue_fault:
  assumes "issues w key = Some i" "isSuccess r"
    and "first_fault f (resolution_calls i prefix r) = Some m"
  shows "close_issue f w key prefix r = Inl m"
proof (cases "f GetTransitions")
  case (Some m')
  with assms pass_calls[OF assms(2), of f i prefix] show ?thesis
    by (simp add: close_issue_def findCloseTransition_def getTransitions_def makeRequest_def)
next
  case None
  then have g: "findCloseTransition f w key = Inr (find close_capable (transitions i))"
    using assms(1)
    by (simp add: findCloseTransition_def getTransitions_def makeRequest_def
          findCloseTransition_loop_find)
  show ?thesis
  proof (cases "find close_capable (transitions i)")
    case n: None
    with None assms(3) pass_calls[OF assms(2), of f i prefix] have "f PostComment = Some m"
      by simp
    with g n show ?thesis
      by (simp add: close_issue_def addComment_def makeRequest_def)
  next
    case s: (Some t)
    with None assms(3) pass_calls[OF assms(2), of f i prefix] have "f PostTransition = Some m"
      by simp
    with g s show ?thesis
      by (simp add: close_issue_def transitionIssue_def makeRequest_def)
  qed
qed

text \<open>
  C7. For a request that reaches the resolution with the result \<open>r\<close>, when a request of
  the resolution fails with the message \<open>m\<close>: the handler still answers with status 200;
  on the success branch the result is VerifiedNoUpdate and the outcome is still the pass, on
  the failure branch the result is UpdateFailed and the outcome is still the failure with
  reason \<open>r\<close>; the message of the result ends with \<open>m\<close>; and no issue has changed.
\<close>

theorem remote_failure_contained:
  assumes "issueKey req = Some key" "key \<noteq> []" "scriptId req = Some sid" "sid \<noteq> []"
    and "getIssue f w key = Inr i"
    and "lookup_file fs (sid @ ''.js'') = Some l"
    and "fst (run_script l w sid key (parameters_of req)) = Inr r"
    and "first_fault f (resolution_calls i (commentPrefix_of req) r) = Some m"
  shows "response_resolution (fst (run_handler f fs w req)) =
           Some (if r = ''ok'' \<or> r = ''OK'' then VerifiedNoUpdate else UpdateFailed)
       \<and> response_outcome (fst (run_handler f fs w req)) =
           Some (if r = ''ok'' \<or> r = ''OK'' then Pass r else Fail r)
       \<and> response_message (fst (run_handler f fs w req)) =
           (if r = ''ok'' \<or> r = ''OK'' then ''Verification passed, but failed to update issue: ''
            else ''Verification failed and could not update issue: '') @ m
       \<and> issues (snd (run_handler f fs w req)) = issues w"
proof -
  obtain w1 where rs: "run_script l w sid key (parameters_of req) = (Inr r, w1)"
    using assms(7) by (cases "run_script l w sid key (parameters_of req)") auto
  have w1: "issues w1 = issues w"
    using run_script_issues[of l w sid key "parameters_of req"] rs by simp
  have run: "run_handler f fs w req = process_result f w1 key (commentPrefix_of req) r"
    using assms(1-6) rs by (rule run_handler_reaches)
  have i: "issues w1 key = Some i"
    using getIssue_Inr[OF assms(5)] w1 by simp
  show ?thesis
  proof (cases "isSuccess r")
    case True
    from close_issue_fault[OF i True assms(8)] True w1 show ?thesis
      unfolding run
      by (simp add: process_result_def response_resolution_def response_outcome_def
            response_message_def outcome_of_def resolution_of_def isSuccess_def)
  next
    case False
    from comment_failure_fault[OF i False assms(8)] False w1 show ?thesis
      unfolding run
      by (simp add: process_result_def response_resolution_def response_outcome_def
            response_message_def outcome_of_def resolution_of_def isSuccess_def)
  qed
qed

lemma ex_run_script:
  "fst (run_script (Loaded (ex_script (Returns r))) w sid key ps) = Inr r"
  by (simp add: run_script_def ex_script_def)

theorem remote_failure_contained_witness:
  "response_resolution (fst (run_handler (fail_on GetTransitions ''Service Unavailable'')
       (Dir (ex_files (Returns ''ok''))) ex_world (ex_request ''PROJ-1'' ''sample-test''))) =
     Some VerifiedNoUpdate
   \<and> response_message (fst (run_handler (fail_on GetTransitions ''Service Unavailable'')
       (Dir (ex_files (Returns ''ok''))) ex_world (ex_request ''PROJ-1'' ''sample-test''))) =
     ''Verification passed, but failed to update issue: Service Unavailable''
   \<and> response_outcome (fst (run_handler (fail_on PostComment ''Service Unavailable'')
       (Dir (ex_files (Returns ''timeout''))) ex_world (ex_request ''PROJ-1'' ''sample-test''))) =
     Some (Fail ''timeout'')
   \<and> response_resolution (fst (run_handler (fail_on PostComment ''Service Unavailable'')
       (Dir (ex_files (Returns ''timeout''))) ex_world (ex_request ''PROJ-1'' ''sample-test''))) =
     Some UpdateFailed
   \<and> issues (snd (run_handler (fail_on PostComment ''Service Unavailable'')
       (Dir (ex_files (Returns ''timeout''))) ex_world (ex_request ''PROJ-1'' ''sample-test''))) =
     issues ex_world"
proof -
  have b: "''PROJ-1'' \<noteq> []" and d: "''sample-test'' \<noteq> []"
    by simp_all
  have g: "getIssue (fail_on GetTransitions m) ex_world ''PROJ-1'' = Inr ex_issue"
    "getIssue (fail_on PostComment m) ex_world ''PROJ-1'' = Inr ex_issue" for m
    by (simp_all add: getIssue_def makeRequest_def fail_on_def ex_world_def)
  have f1: "first_fault (fail_on GetTransitions ''Service Unavailable'')
              (resolution_calls ex_issue
                 (commentPrefix_of (ex_request ''PROJ-1'' ''sample-test'')) ''ok'') =
            Some ''Service Unavailable''"
    by (simp add: resolution_calls_def fail_on_def)
  have f2: "first_fault (fail_on PostComment ''Service Unavailable'')
              (resolution_calls ex_issue
                 (commentPrefix_of (ex_request ''PROJ-1'' ''sample-test'')) ''timeout'') =
            Some ''Service Unavailable''"
    by (simp add: resolution_calls_def fail_on_def ex_request_fields ex_issue_def tagged_def
          startsWith_def)
  show ?thesis
    using remote_failure_contained[OF ex_request_fields(1) b ex_request_fields(2) d g(1)
        ex_lookup ex_run_script f1]
      remote_failure_contained[OF ex_request_fields(1) b ex_request_fields(2) d g(2)
        ex_lookup ex_run_script f2]
    by simp
qed

section \<open>Repeated failures\<close>

lemma fresh_id_fresh: "c \<in> set cs \<Longrightarrow> comment_id c < fresh_id cs"
  by (induction cs) (auto simp: fresh_id_def)

lemma process_result_CommentedFail:
  assumes "response_resolution (fst (process_result f w key p r)) = Some CommentedFail"
  shows "\<exists>res. comment_failure f w key p r = Inr (res, snd (process_result f w key p r)) \<and>
           response_result (fst (process_result f w key p r)) = r \<and> \<not> isSuccess r"
proof (cases "isSuccess r")
  case True
  show ?thesis
  proof (cases "close_issue f w key p r")
    case (Inl m)
    with True assms show ?thesis
      by (simp add: process_result_def response_resolution_def resolution_of_def)
  next
    case (Inr x)
    obtain res w' where x: "x = (res, w')" by (cases x)
    from close_issue_cases[OF Inr[unfolded x]] True Inr x assms show ?thesis
      by (auto simp: process_result_def response_resolution_def)
  qed
next
  case False
  show ?thesis
  proof (cases "comment_failure f w key p r")
    case (Inl m)
    with False assms show ?thesis
      by (simp add: process_result_def response_resolution_def resolution_of_def)
  next
    case (Inr x)
    obtain res w' where x: "x = (res, w')" by (cases x)
    from comment_failure_cases[OF Inr[unfolded x]] False Inr x show ?thesis
      by (simp add: process_result_def response_result_def)
  qed
qed

lemma run_handler_cases:
  "response_resolution (fst (run_handler f fs w req)) = None \<or>
   (\<exists>key w1 r. issueKey req = Some key \<and> issues w1 = issues w \<and>
      run_handler f fs w req = process_result f w1 key (commentPrefix_of req) r)"
proof (cases "falsy (issueKey req) \<or> falsy (scriptId req)")
  case True
  then show ?thesis
    by (auto simp add: run_handler_def response_resolution_def)
next
  case False
  then obtain key sid where k: "issueKey req = Some key" "scriptId req = Some sid"
    by (auto simp: falsy_def split: option.splits)
  show ?thesis
  proof (cases "getIssue f w key")
    case (Inl m)
    with False k show ?thesis
      by (simp add: run_handler_def response_resolution_def)
  next
    case (Inr i)
    show ?thesis
    proof (cases "lookup_file fs (sid @ ''.js'')")
      case None
      with False k Inr show ?thesis
        by (simp add: run_handler_def response_resolution_def)
    next
      case (Some l)
      obtain x w1 where rs: "run_script l w sid key (parameters_of req) = (x, w1)"
        by (cases "run_script l w sid key (parameters_of req)")
      have w1: "issues w1 = issues w"
        using run_script_issues[of l w sid key "parameters_of req"] rs by simp
      show ?thesis
      proof (cases x)
        case (Inl m)
        with False k Inr Some rs show ?thesis
          by (simp add: run_handler_def response_resolution_def)
      next
        case r: (Inr r)
        with False k Inr Some rs have
          "run_handler f fs w req = process_result f w1 key (commentPrefix_of req) r"
          by (simp add: run_handler_def)
        with k w1 show ?thesis by blast
      qed
    qed
  qed
qed

lemma run_handler_CommentedFail:
  assumes "response_resolution (fst (run_handler f fs w req)) = Some CommentedFail"
    and "issueKey req = Some key"
  shows "\<exists>w1 res. issues w1 = issues w \<and>
           comment_failure f w1 key (commentPrefix_of req)
             (response_result (fst (run_handler f fs w req))) =
             Inr (res, snd (run_handler f fs w req)) \<and>
           response_outcome (fst (run_handler f fs w req)) =
             Some (Fail (response_result (fst (run_handler f fs w req))))"
proof -
  from run_handler_cases[of f fs w req] assms obtain w1 r where
    w1: "issues w1 = issues w"
    and run: "run_handler f fs w req = process_result f w1 key (commentPrefix_of req) r"
    by auto
  from process_result_CommentedFail[of f w1 key "commentPrefix_of req" r] assms(1)
  obtain res where c: "comment_failure f w1 key (commentPrefix_of req) r =
        Inr (res, snd (process_result f w1 key (commentPrefix_of req) r))"
    and r: "response_result (fst (process_result f w1 key (commentPrefix_of req) r)) = r"
    and ns: "\<not> isSuccess r"
    unfolding run by auto
  from process_result_fail(1)[OF ns, of f w1 key "commentPrefix_of req"] c r w1 show ?thesis
    unfolding run by auto
qed

lemma startsWith_append: "startsWith (p @ s) p"
  by (simp add: startsWith_def)

lemma find_append_last: "find P xs = None \<Longrightarrow> P c \<Longrightarrow> find P (xs @ [c]) = Some c"
  by (induction xs) (auto split: if_splits)

lemma length_run_all: "length (fst (run_all w runs)) = length runs"
proof (induction runs arbitrary: w)
  case Nil
  show ?case by simp
next
  case (Cons run runs)
  obtain f fs req where run: "run = (f, fs, req)" by (cases run)
  show ?case
    using Cons.IH[of "snd (run_handler f fs w req)"]
    by (simp add: run split_beta)
qed

lemma comment_failure_first:
  assumes "comment_failure f w key tag r = Inr (res, w')"
    and "issues w key = Some i" "tagged tag (comments i) = []"
  shows "issues w' = (issues w)(key \<mapsto>
           i\<lparr>comments := comments i @ [\<lparr>comment_id = fresh_id (comments i), body = tag @ '' '' @ r\<rparr>]\<rparr>)"
proof -
  from comment_failure_Inr[OF assms(1)] assms(2,3)
  have "f GetComments = None" "f PostComment = None"
    using find_None_tagged[of tag "comments i"] by auto
  from comment_failure_add[OF assms(2) this assms(3), of r] assms(1) show ?thesis
    by (auto simp: srv_add_comment_def)
qed

lemma comment_failure_again:
  assumes "comment_failure f w key tag r = Inr (res, w')"
    and "issues w key = Some i"
    and "comments i = cs @ [\<lparr>comment_id = fresh_id cs, body = b\<rparr>]"
    and "tagged tag cs = []" "startsWith b tag"
  shows "issues w' = (issues w)(key \<mapsto>
           i\<lparr>comments := cs @ [\<lparr>comment_id = fresh_id cs, body = tag @ '' '' @ r\<rparr>]\<rparr>)"
proof -
  let ?c = "\<lparr>comment_id = fresh_id cs, body = b\<rparr>"
  have "find (\<lambda>c. startsWith (body c) tag) cs = None"
    using assms(4) by (simp add: find_None_tagged)
  then have fnd: "find (\<lambda>c. startsWith (body c) tag) (comments i) = Some ?c"
    using assms(3,5) by (simp add: find_append_last)
  with comment_failure_Inr[OF assms(1)] assms(2)
  have "f GetComments = None" "f PutComment = None"
    using find_None_tagged[of tag "comments i"] by auto
  note u = comment_failure_update[OF assms(2) this fnd, of r]
  have "map (\<lambda>x. if comment_id x = comment_id ?c then x\<lparr>body := tag @ '' '' @ r\<rparr> else x) cs = cs"
    by (intro map_idI) (auto dest: fresh_id_fresh)
  then have "map (\<lambda>x. if comment_id x = comment_id ?c then x\<lparr>body := tag @ '' '' @ r\<rparr> else x)
               (comments i) = cs @ [\<lparr>comment_id = fresh_id cs, body = tag @ '' '' @ r\<rparr>]"
    using assms(3) by simp
  with u assms(1) show ?thesis
    by auto
qed

lemma process_result_UpdateFailed:
  assumes "response_resolution (fst (process_result f w key p r)) = Some UpdateFailed"
  shows "snd (process_result f w key p r) = w"
proof (cases "isSuccess r")
  case True
  show ?thesis
  proof (cases "close_issue f w key p r")
    case (Inl m)
    with True show ?thesis
      by (simp add: process_result_def)
  next
    case (Inr x)
    obtain res w' where x: "x = (res, w')" by (cases x)
    from close_issue_cases[OF Inr[unfolded x]] True Inr x assms show ?thesis
      by (auto simp: process_result_def response_resolution_def)
  qed
next
  case False
  show ?thesis
  proof (cases "comment_failure f w key p r")
    case (Inl m)
    with False show ?thesis
      by (simp add: process_result_def)
  next
    case (Inr x)
    obtain res w' where x: "x = (res, w')" by (cases x)
    from comment_failure_cases[OF Inr[unfolded x]] False Inr x assms show ?thesis
      by (auto simp: process_result_def response_resolution_def)
  qed
qed

lemma run_handler_UpdateFailed:
  assumes "response_resolution (fst (run_handler f fs w req)) = Some UpdateFailed"
  shows "issues (snd (run_handler f fs w req)) = issues w"
proof -
  from run_handler_cases[of f fs w req] assms obtain key w1 r where
    w1: "issues w1 = issues w"
    and run: "run_handler f fs w req = process_result f w1 key (commentPrefix_of req) r"
    by auto
  from process_result_UpdateFailed[of f w1 key "commentPrefix_of req" r] assms w1 show ?thesis
    unfolding run by simp
qed

lemma Fail_outcome_resolution:
  assumes "response_outcome resp = Some (Fail r)"
  shows "response_resolution resp = Some CommentedFail \<or>
         response_resolution resp = Some UpdateFailed"
  using assms
  by (auto simp: response_outcome_def response_resolution_def outcome_of_def
        split: response.splits json.splits if_splits option.splits resolution.splits)

lemma fail_run_step:
  assumes "issues w key = Some j"
    and "comments j = cs @ map (\<lambda>b. \<lparr>comment_id = fresh_id cs, body = b\<rparr>) bs"
    and "length bs \<le> 1" "\<forall>b \<in> set bs. startsWith b tag" "tagged tag cs = []"
    and "issueKey req = Some key" "commentPrefix_of req = tag"
    and "response_outcome (fst (run_handler f fs w req)) =
           Some (Fail (response_result (fst (run_handler f fs w req))))"
  shows "\<exists>j' bs'. issues (snd (run_handler f fs w req)) key = Some j' \<and>
           comments j' = cs @ map (\<lambda>b. \<lparr>comment_id = fresh_id cs, body = b\<rparr>) bs' \<and>
           length bs' \<le> 1 \<and> (\<forall>b \<in> set bs'. startsWith b tag) \<and>
           (response_resolution (fst (run_handler f fs w req)) = Some CommentedFail \<longrightarrow>
              bs' = [tag @ '' '' @ response_result (fst (run_handler f fs w req))])"
proof -
  let ?resp = "fst (run_handler f fs w req)"
  let ?w1 = "snd (run_handler f fs w req)"
  from Fail_outcome_resolution[OF assms(8)]
  consider (cf) "response_resolution ?resp = Some CommentedFail"
    | (uf) "response_resolution ?resp = Some UpdateFailed" by blast
  then show ?thesis
  proof cases
    case cf
    from run_handler_CommentedFail[OF cf assms(6)] obtain w0 res where
      w0: "issues w0 = issues w"
      and c: "comment_failure f w0 key tag (response_result ?resp) = Inr (res, ?w1)"
      by (auto simp: assms(7))
    have i0: "issues w0 key = Some j"
      using w0 assms(1) by simp
    let ?new = "\<lparr>comment_id = fresh_id cs, body = tag @ '' '' @ response_result ?resp\<rparr>"
    have "issues ?w1 key = Some (j\<lparr>comments := cs @ [?new]\<rparr>)"
    proof (cases bs)
      case Nil
      with assms(2) have cj: "comments j = cs" by simp
      with assms(5) have "tagged tag (comments j) = []" by simp
      from comment_failure_first[OF c i0 this] cj show ?thesis by simp
    next
      case (Cons b rest)
      with assms(3) have bs: "bs = [b]" by simp
      with assms(2) have cj: "comments j = cs @ [\<lparr>comment_id = fresh_id cs, body = b\<rparr>]"
        by simp
      from assms(4) bs have "startsWith b tag" by simp
      from comment_failure_again[OF c i0 cj assms(5) this] show ?thesis by simp
    qed
    then have "issues ?w1 key = Some (j\<lparr>comments := cs @ [?new]\<rparr>) \<and>
        comments (j\<lparr>comments := cs @ [?new]\<rparr>) =
          cs @ map (\<lambda>b. \<lparr>comment_id = fresh_id cs, body = b\<rparr>)
                 [tag @ '' '' @ response_result ?resp] \<and>
        length [tag @ '' '' @ response_result ?resp] \<le> 1 \<and>
        (\<forall>b \<in> set [tag @ '' '' @ response_result ?resp]. startsWith b tag)"
      by (simp add: startsWith_append)
    then show ?thesis by blast
  next
    case uf
    from run_handler_UpdateFailed[OF uf] assms(1) have "issues ?w1 key = Some j"
      by simp
    with assms(2,3,4) uf show ?thesis by auto
  qed
qed

lemma fail_runs_state:
  assumes "issues w key = Some j"
    and "comments j = cs @ map (\<lambda>b. \<lparr>comment_id = fresh_id cs, body = b\<rparr>) bs"
    and "length bs \<le> 1" "\<forall>b \<in> set bs. startsWith b tag" "tagged tag cs = []"
    and "\<forall>(f, fs, req) \<in> set runs. issueKey req = Some key \<and> commentPrefix_of req = tag"
    and "\<forall>resp \<in> set (fst (run_all w runs)).
           response_outcome resp = Some (Fail (response_result resp))"
  shows "\<exists>bs'. comments_of (snd (run_all w runs)) key =
             cs @ map (\<lambda>b. \<lparr>comment_id = fresh_id cs, body = b\<rparr>) bs' \<and>
           length bs' \<le> 1 \<and> (\<forall>b \<in> set bs'. startsWith b tag) \<and>
           (runs \<noteq> [] \<and>
            response_resolution (last (fst (run_all w runs))) = Some CommentedFail \<longrightarrow>
              bs' = [tag @ '' '' @ response_result (last (fst (run_all w runs)))])"
  using assms
proof (induction runs arbitrary: w j bs)
  case Nil
  then show ?case
    by (auto simp: comments_of_def)
next
  case (Cons run runs)
  obtain f fs req where run: "run = (f, fs, req)" by (cases run)
  obtain resp w1 where h: "run_handler f fs w req = (resp, w1)"
    by (cases "run_handler f fs w req")
  obtain resps w2 where rest: "run_all w1 runs = (resps, w2)"
    by (cases "run_all w1 runs")
  have all: "run_all w (run # runs) = (resp # resps, w2)"
    by (simp add: run h rest)
  have k: "issueKey req = Some key" "commentPrefix_of req = tag"
    using Cons.prems(6) by (auto simp: run)
  have o: "response_outcome (fst (run_handler f fs w req)) =
             Some (Fail (response_result (fst (run_handler f fs w req))))"
    using Cons.prems(7) by (simp add: all h)
  from fail_run_step[OF Cons.prems(1-5) k o] obtain j1 bs1 where
    j1: "issues w1 key = Some j1"
    and c1: "comments j1 = cs @ map (\<lambda>b. \<lparr>comment_id = fresh_id cs, body = b\<rparr>) bs1"
    and l1: "length bs1 \<le> 1" and t1: "\<forall>b \<in> set bs1. startsWith b tag"
    and n1: "response_resolution resp = Some CommentedFail \<longrightarrow>
               bs1 = [tag @ '' '' @ response_result resp]"
    by (auto simp: h)
  have p6: "\<forall>(f, fs, req) \<in> set runs. issueKey req = Some key \<and> commentPrefix_of req = tag"
    using Cons.prems(6) by simp
  have p7: "\<forall>resp \<in> set (fst (run_all w1 runs)).
              response_outcome resp = Some (Fail (response_result resp))"
    using Cons.prems(7) by (simp add: all rest)
  have len: "length resps = length runs"
    using length_run_all[of w1 runs] by (simp add: rest)
  show ?case
  proof (cases "runs = []")
    case True
    with rest have e: "resps = []" "w2 = w1" by simp_all
    from j1 c1 l1 t1 n1 show ?thesis
      unfolding all by (auto simp: e comments_of_def)
  next
    case False
    with len have ne: "resps \<noteq> []" by auto
    from Cons.IH[OF j1 c1 l1 t1 Cons.prems(5) p6 p7] False ne show ?thesis
      unfolding all by (simp add: rest)
  qed
qed

text \<open>
  C5 (amended). Let an issue have no comment whose body starts with the tag, and let one or
  more requests for that issue with that tag follow one another, each with a failure as its
  outcome. Whatever comment writes the tracker rejected, the issue afterwards carries its
  former comments, unchanged, followed by at most one comment whose body starts with the
  tag: a second one is never appended. When the write of the last run was accepted (its
  result is CommentedFail), there is exactly one, and its body is the tag, a blank and the
  reason of the last failure.
\<close>

theorem repeated_failures_keep_one_comment:
  assumes "issues w key = Some i" "tagged tag (comments i) = []" "runs \<noteq> []"
    and "\<forall>(f, fs, req) \<in> set runs. issueKey req = Some key \<and> commentPrefix_of req = tag"
    and "\<forall>resp \<in> set (fst (run_all w runs)).
           response_outcome resp = Some (Fail (response_result resp))"
  shows "length (tagged tag (comments_of (snd (run_all w runs)) key)) \<le> 1
       \<and> comments_of (snd (run_all w runs)) key =
           comments i @ tagged tag (comments_of (snd (run_all w runs)) key)
       \<and> (response_resolution (last (fst (run_all w runs))) = Some CommentedFail \<longrightarrow>
            tagged tag (comments_of (snd (run_all w runs)) key) =
              [\<lparr>comment_id = fresh_id (comments i),
                body = tag @ '' '' @ response_result (last (fst (run_all w runs)))\<rparr>])"
proof -
  let ?mk = "\<lambda>b. \<lparr>comment_id = fresh_id (comments i), body = b\<rparr>"
  have c0: "comments i = comments i @ map ?mk []" by simp
  have l0: "length ([] :: string list) \<le> 1" by simp
  have t0: "\<forall>b \<in> set ([] :: string list). startsWith b tag" by simp
  from fail_runs_state[OF assms(1) c0 l0 t0 assms(2,4,5)] obtain bs where
    cs: "comments_of (snd (run_all w runs)) key = comments i @ map ?mk bs"
    and l: "length bs \<le> 1" and t: "\<forall>b \<in> set bs. startsWith b tag"
    and n: "response_resolution (last (fst (run_all w runs))) = Some CommentedFail \<longrightarrow>
              bs = [tag @ '' '' @ response_result (last (fst (run_all w runs)))]"
    using assms(3) by auto
  have "filter (\<lambda>c. startsWith (body c) tag) (map ?mk bs) = map ?mk bs"
    using t by (induction bs) auto
  then have tg: "tagged tag (comments_of (snd (run_all w runs)) key) = map ?mk bs"
    using assms(2) by (simp add: cs tagged_def)
  from tg cs l n show ?thesis
    by auto
qed

theorem repeated_failures_keep_one_comment_witness:
  "map response_resolution (fst (run_all ex_world ex_runs)) =
     [Some UpdateFailed, Some CommentedFail, Some UpdateFailed, Some CommentedFail]
   \<and> comments_of (snd (run_all ex_world ex_runs)) ''PROJ-1'' =
     [\<lparr>comment_id = 7, body = ''Seen on staging''\<rparr>,
      \<lparr>comment_id = 8, body = ''[Verification] still failing''\<rparr>]
   \<and> tagged ''[Verification]'' (comments_of (snd (run_all ex_world ex_runs)) ''PROJ-1'') =
     [\<lparr>comment_id = 8, body = ''[Verification] still failing''\<rparr>]"
proof -
  have i: "issues ex_world ''PROJ-1'' = Some ex_issue"
    by (simp add: ex_world_def)
  have t: "tagged ''[Verification]'' (comments ex_issue) = []"
    by (simp add: tagged_def ex_issue_def startsWith_def)
  have n: "ex_runs \<noteq> []"
    by (simp add: ex_runs_def)
  have k: "\<forall>(f, fs, req) \<in> set ex_runs.
             issueKey req = Some ''PROJ-1'' \<and> commentPrefix_of req = ''[Verification]''"
    by (simp add: ex_runs_def ex_request_fields)
  have r: "\<forall>resp \<in> set (fst (run_all ex_world ex_runs)).
             response_outcome resp = Some (Fail (response_result resp))"
    by code_simp
  have m: "map response_resolution (fst (run_all ex_world ex_runs)) =
     [Some UpdateFailed, Some CommentedFail, Some UpdateFailed, Some CommentedFail]"
    by code_simp
  have l: "response_resolution (last (fst (run_all ex_world ex_runs))) = Some CommentedFail"
    "response_result (last (fst (run_all ex_world ex_runs))) = ''still failing''"
    by code_simp+
  note th = repeated_failures_keep_one_comment[OF i t n k r]
  have b: "tagged ''[Verification]'' (comments_of (snd (run_all ex_world ex_runs)) ''PROJ-1'') =
     [\<lparr>comment_id = 8, body = ''[Verification] still failing''\<rparr>]"
    using th[THEN conjunct2, THEN conjunct2] l
    by (simp add: ex_issue_def fresh_id_def)
  have "comments_of (snd (run_all ex_world ex_runs)) ''PROJ-1'' =
     comments ex_issue @ [\<lparr>comment_id = 8, body = ''[Verification] still failing''\<rparr>]"
    using th[THEN conjunct2, THEN conjunct1] unfolding b .
  then have a: "comments_of (snd (run_all ex_world ex_runs)) ''PROJ-1'' =
     [\<lparr>comment_id = 7, body = ''Seen on staging''\<rparr>,
      \<lparr>comment_id = 8, body = ''[Verification] still failing''\<rparr>]"
    by (simp add: ex_issue_def)
  from m a b show ?thesis
    by (intro conjI)
qed

text \<open>
  C5 as stated fails when the tracker rejects the new comment: the run has a failure as
  its outcome, and afterwards the issue carries no comment that starts with the tag.
\<close>

theorem repeated_failures_counterexample:
  "map response_outcome (fst (run_all ex_world
       [(fail_on PostComment ''Service Unavailable'', Dir (ex_files (Returns ''timeout'')),
         ex_request ''PROJ-1'' ''sample-test'')])) = [Some (Fail ''timeout'')]
   \<and> tagged ''[Verification]'' (comments_of ex_world ''PROJ-1'') = []
   \<and> tagged ''[Verification]'' (comments_of (snd (run_all ex_world
       [(fail_on PostComment ''Service Unavailable'', Dir (ex_files (Returns ''timeout'')),
         ex_request ''PROJ-1'' ''sample-test'')])) ''PROJ-1'') = []"
  by code_simp

section \<open>Saving and reading the settings\<close>

text \<open>
  C10. With a cipher that decrypts what it encrypts, saving settings whose token is not
  empty and reading them back gives the same settings, the token included; the file that was
  written holds the encrypted token in place of the token, and the two differ.
\<close>

theorem token_round_trip:
  assumes "cipher_ok enc dec"
    and "apiToken s \<noteq> []"
    and "saveSettings enc salt writable s file = (True, file')"
  shows "getSettings dec file' = s
       \<and> (\<exists>e. enc salt (apiToken s) = Some e \<and> file' = Content (s\<lparr>apiToken := e\<rparr>) \<and>
              e \<noteq> apiToken s)"
proof -
  from assms(2,3) obtain e where e: "enc salt (apiToken s) = Some e"
    and f: "file' = Content (s\<lparr>apiToken := e\<rparr>)"
    by (auto simp: saveSettings_def split: option.splits if_splits)
  from assms(1) e have d: "dec e = Some (apiToken s)" and l: "length (apiToken s) < length e"
    by (auto simp: cipher_ok_def)
  from l have ne: "e \<noteq> []" "e \<noteq> apiToken s" by auto
  from d ne f have "getSettings dec file' = s"
    by (simp add: getSettings_def)
  with e f ne show ?thesis by simp
qed

lemma ex_cipher_ok: "cipher_ok ex_enc ex_dec"
  by (auto simp: cipher_ok_def ex_enc_def ex_dec_def)

theorem token_round_trip_witness:
  "getSettings ex_dec (snd (saveSettings ex_enc CHR ''U'' True ex_settings Absent)) = ex_settings
   \<and> snd (saveSettings ex_enc CHR ''U'' True ex_settings Absent) =
       Content (ex_settings\<lparr>apiToken := ''Uterc3s''\<rparr>)"
proof -
  have t: "apiToken ex_settings \<noteq> []"
    by (simp add: ex_settings_def)
  have s: "saveSettings ex_enc CHR ''U'' True ex_settings Absent =
             (True, Content (ex_settings\<lparr>apiToken := ''Uterc3s''\<rparr>))"
    by (simp add: saveSettings_def ex_enc_def ex_settings_def)
  show ?thesis
    using token_round_trip[OF ex_cipher_ok t s] s
    by simp
qed

end
